theory Spec2Isabelle
  imports Main
begin

section \<open>Outcomes of a call\<close>

text \<open>
  The header \<^verbatim>\<open>boost/histogram/detail/static_vector.hpp\<close> defines the class template
  \<^verbatim>\<open>static_vector<T, N>\<close>: a counter \<^verbatim>\<open>size_\<close> and an inline array \<^verbatim>\<open>data_[N]\<close>.
  A call of one of its members either returns, or fails in one of four ways, which the
  model keeps apart:
  \<^item> an exception that propagates to the caller (\<open>Throw\<close>);
  \<^item> \<^verbatim>\<open>std::terminate\<close>, called when an exception tries to leave a function declared
    \<^verbatim>\<open>noexcept\<close> (\<open>Terminate\<close>);
  \<^item> a failed \<^verbatim>\<open>assert\<close> in a build without \<^verbatim>\<open>NDEBUG\<close> (\<open>Assertion_Failed\<close>);
  \<^item> an access outside the array \<^verbatim>\<open>data_[N]\<close>, which C++ leaves undefined
    (\<open>Undefined_Behaviour\<close>).
\<close>

datatype exception = out_of_range string

datatype failure =
    Throw exception
  | Terminate exception
  | Assertion_Failed
  | Undefined_Behaviour

type_synonym 'a result = "failure + 'a"

definition and_then :: "'a result \<Rightarrow> ('a \<Rightarrow> 'b result) \<Rightarrow> 'b result" where
  "and_then r f = (case r of Inl e \<Rightarrow> Inl e | Inr x \<Rightarrow> f x)"

text \<open>
  A function declared \<^verbatim>\<open>noexcept\<close>: an exception that would leave its body ends the program
  through \<^verbatim>\<open>std::terminate\<close>; every other outcome passes through.
\<close>

definition noexcept :: "'a result \<Rightarrow> 'a result" where
  "noexcept r = (case r of Inl (Throw e) \<Rightarrow> Inl (Terminate e) | _ \<Rightarrow> r)"

text \<open>
  Modelled from the spec: the macro \<^verbatim>\<open>BOOST_THROW_EXCEPTION\<close> comes from
  \<^verbatim>\<open>boost/throw_exception.hpp\<close>, which is not part of the sources at hand. The
  specification describes its effect in \<^verbatim>\<open>at\<close> as failing with an out-of-range error that
  carries a diagnostic message: it throws the exception it is given.
\<close>

definition BOOST_THROW_EXCEPTION :: "exception \<Rightarrow> 'a result" where
  "BOOST_THROW_EXCEPTION e = Inl (Throw e)"

text \<open>
  \<^verbatim>\<open>assert(c)\<close>: checked unless the translation unit is compiled with \<^verbatim>\<open>NDEBUG\<close>.
\<close>

definition assert :: "bool \<Rightarrow> bool \<Rightarrow> unit result" where
  "assert NDEBUG c = (if NDEBUG \<or> c then Inr () else Inl Assertion_Failed)"

subsection \<open>The array \<^verbatim>\<open>data_[N]\<close>\<close>

text \<open>
  The array is a list whose length is the template parameter \<open>N\<close>. Reading or writing
  at an index that is not below the length is undefined behaviour in C++; HOL's \<open>!\<close> and
  list update would silently return something, so both accesses are guarded.
\<close>

definition array_read :: "'a list \<Rightarrow> nat \<Rightarrow> 'a result" where
  "array_read xs i = (if i < length xs then Inr (xs ! i) else Inl Undefined_Behaviour)"

definition array_write :: "'a list \<Rightarrow> nat \<Rightarrow> 'a \<Rightarrow> 'a list result" where
  "array_write xs i v = (if i < length xs then Inr (xs[i := v]) else Inl Undefined_Behaviour)"

section \<open>The class \<^verbatim>\<open>static_vector<T, N>\<close>\<close>

text \<open>
  The two data members. Isabelle does not admit names that end in an underscore, so
  \<^verbatim>\<open>size_\<close> is \<open>size_m\<close> and \<^verbatim>\<open>data_\<close> is \<open>data_m\<close>. \<^verbatim>\<open>std::size_t\<close> is \<open>nat\<close>: the class
  computes with sizes only in \<^verbatim>\<open>back()\<close> (\<^verbatim>\<open>size_ - 1\<close>), where the wrap-around at zero is
  written out. The element type \<^verbatim>\<open>T\<close> is the type variable \<open>'a\<close>; assigning an element is
  HOL's value copy. Comparing two elements is \<^verbatim>\<open>T\<close>'s own \<^verbatim>\<open>operator==\<close>, which the
  comparison functions below take as the argument \<open>eq\<close>: for the integer index types the
  histogram library stores here it is value equality, for \<^verbatim>\<open>double\<close> it is not.
\<close>

record 'a static_vector =
  size_m :: nat
  data_m :: "'a list"

text \<open>
  The template parameter \<open>N\<close> is an explicit argument where a member uses it. An object
  of type \<^verbatim>\<open>static_vector<T, N>\<close> has an array of exactly \<open>N\<close> slots (\<open>has_capacity\<close>); the
  class invariant, which the sized constructor asserts, is that the counter does not exceed
  \<open>N\<close> (\<open>invariant\<close>).
\<close>

definition has_capacity :: "nat \<Rightarrow> 'a static_vector \<Rightarrow> bool" where
  "has_capacity N this = (length (data_m this) = N)"

definition invariant :: "nat \<Rightarrow> 'a static_vector \<Rightarrow> bool" where
  "invariant N this = (has_capacity N this \<and> size_m this \<le> N)"

subsection \<open>Observers\<close>

definition max_size :: "nat \<Rightarrow> 'a static_vector \<Rightarrow> nat" where
  "max_size N this = N"

definition size_sv :: "'a static_vector \<Rightarrow> nat" where
  "size_sv this = size_m this"

definition empty_sv :: "'a static_vector \<Rightarrow> bool" where
  "empty_sv this = (size_m this = 0)"

text \<open>
  Iterators are pointers into \<^verbatim>\<open>data_\<close>; the model keeps the offset from \<^verbatim>\<open>data_\<close>.
\<close>

definition begin_sv :: "'a static_vector \<Rightarrow> nat" where
  "begin_sv this = 0"

definition end_sv :: "'a static_vector \<Rightarrow> nat" where
  "end_sv this = begin_sv this + size_m this"

text \<open>
  \<^verbatim>\<open>operator[]\<close> returns a reference to \<^verbatim>\<open>data_[pos]\<close> without any check. \<open>subscript\<close>
  reads through that reference, \<open>subscript_assign\<close> writes through it
  (\<^verbatim>\<open>v[pos] = value\<close>).
\<close>

definition subscript :: "'a static_vector \<Rightarrow> nat \<Rightarrow> 'a result" where
  "subscript this pos = array_read (data_m this) pos"

definition subscript_assign :: "'a static_vector \<Rightarrow> nat \<Rightarrow> 'a \<Rightarrow> 'a static_vector result" where
  "subscript_assign this pos v =
     and_then (array_write (data_m this) pos v) (\<lambda>d. Inr (this\<lparr>data_m := d\<rparr>))"

text \<open>
  \<^verbatim>\<open>at\<close> is declared \<^verbatim>\<open>noexcept\<close> and its body throws when \<^verbatim>\<open>pos >= size()\<close>.
\<close>

definition at_body :: "'a static_vector \<Rightarrow> nat \<Rightarrow> 'a result" where
  "at_body this pos =
     (if pos \<ge> size_sv this
      then BOOST_THROW_EXCEPTION (out_of_range ''pos is out of range'')
      else array_read (data_m this) pos)"

definition at :: "'a static_vector \<Rightarrow> nat \<Rightarrow> 'a result" where
  "at this pos = noexcept (at_body this pos)"

definition front :: "'a static_vector \<Rightarrow> 'a result" where
  "front this = array_read (data_m this) 0"

text \<open>
  \<^verbatim>\<open>back()\<close> is \<^verbatim>\<open>data_[size_ - 1]\<close>. For \<^verbatim>\<open>size_ == 0\<close> the unsigned subtraction wraps to
  \<^verbatim>\<open>SIZE_MAX\<close>, an index outside every array.
\<close>

definition back_sv :: "'a static_vector \<Rightarrow> 'a result" where
  "back_sv this =
     (if size_m this = 0 then Inl Undefined_Behaviour
      else array_read (data_m this) (size_m this - 1))"

subsection \<open>\<^verbatim>\<open>fill\<close>\<close>

text \<open>
  \<^verbatim>\<open>std::fill(first, last, value)\<close> of \<^verbatim>\<open><algorithm>\<close>:
  \<^verbatim>\<open>for (; first != last; ++first) *first = value;\<close>
  (\<open>lst\<close> stands for \<^verbatim>\<open>last\<close>, which names a list function in HOL.)
\<close>

function std_fill :: "'a list \<Rightarrow> nat \<Rightarrow> nat \<Rightarrow> 'a \<Rightarrow> 'a list result" where
  "std_fill xs first lst v =
     (if first \<noteq> lst
      then (if first < length xs
            then std_fill (xs[first := v]) (first + 1) lst v
            else Inl Undefined_Behaviour)
      else Inr xs)"
  by pat_completeness auto
termination
  by (relation "measure (\<lambda>(xs, first, lst, v). max lst (length xs) - first)") auto

declare std_fill.simps [simp del]

definition fill :: "'a static_vector \<Rightarrow> 'a \<Rightarrow> 'a static_vector result" where
  "fill this v =
     and_then (std_fill (data_m this) (begin_sv this) (end_sv this) v)
       (\<lambda>d. Inr (this\<lparr>data_m := d\<rparr>))"

subsection \<open>Constructors\<close>

text \<open>
  A constructor leaves the slots it does not write in an indeterminate state. The
  model takes these initial contents as the argument \<open>raw\<close>, a list of \<open>N\<close> arbitrary
  values, so that nothing can be proved from them.

  \<^verbatim>\<open>static_vector() = default;\<close> with the member initialiser \<^verbatim>\<open>size_ = 0\<close>.
\<close>

definition static_vector_default :: "'a list \<Rightarrow> 'a static_vector" where
  "static_vector_default raw = \<lparr>size_m = 0, data_m = raw\<rparr>"

text \<open>
  \<^verbatim>\<open>explicit static_vector(std::size_t s) noexcept : size_(s) { assert(size_ <= N); }\<close>
\<close>

definition static_vector_sized ::
  "bool \<Rightarrow> nat \<Rightarrow> 'a list \<Rightarrow> nat \<Rightarrow> 'a static_vector result" where
  "static_vector_sized NDEBUG N raw s =
     (let this = \<lparr>size_m = s, data_m = raw\<rparr>
      in and_then (assert NDEBUG (size_m this \<le> N)) (\<lambda>_. Inr this))"

text \<open>
  \<^verbatim>\<open>static_vector(std::size_t s, const T& value) : static_vector(s) { fill(value); }\<close>
\<close>

definition static_vector_value ::
  "bool \<Rightarrow> nat \<Rightarrow> 'a list \<Rightarrow> nat \<Rightarrow> 'a \<Rightarrow> 'a static_vector result" where
  "static_vector_value NDEBUG N raw s v =
     and_then (static_vector_sized NDEBUG N raw s) (\<lambda>this. fill this v)"

text \<open>
  \<^verbatim>\<open>std::copy(first, last, d_first)\<close> of \<^verbatim>\<open><algorithm>\<close>:
  \<^verbatim>\<open>while (first != last) *d_first++ = *first++;\<close>
  The source range is the initializer list itself, so the loop is a recursion on it.
\<close>

fun std_copy :: "'a list \<Rightarrow> 'a list \<Rightarrow> nat \<Rightarrow> 'a list result" where
  "std_copy [] dst d_first = Inr dst"
| "std_copy (x # xs) dst d_first =
     (if d_first < length dst
      then std_copy xs (dst[d_first := x]) (d_first + 1)
      else Inl Undefined_Behaviour)"

text \<open>
  \<^verbatim>\<open>static_vector(std::initializer_list<T> il) : static_vector(il.size())
  { std::copy(il.begin(), il.end(), data_); }\<close>
\<close>

definition static_vector_list ::
  "bool \<Rightarrow> nat \<Rightarrow> 'a list \<Rightarrow> 'a list \<Rightarrow> 'a static_vector result" where
  "static_vector_list NDEBUG N raw il =
     and_then (static_vector_sized NDEBUG N raw (length il))
       (\<lambda>this. and_then (std_copy il (data_m this) 0) (\<lambda>d. Inr (this\<lparr>data_m := d\<rparr>)))"

subsection \<open>\<^verbatim>\<open>swap\<close>\<close>

text \<open>
  The loop of \<^verbatim>\<open>swap\<close>, with both iterators as offsets (they advance together, so one
  index \<open>i\<close> serves for \<^verbatim>\<open>i\<close> and \<^verbatim>\<open>j\<close>; \<open>lst\<close> is the iterator \<^verbatim>\<open>end\<close>):
  \<^verbatim>\<open>for (auto i = begin(), j = other.begin(), end = begin() + s; i != end; ++i, ++j)
    swap(*i, *j);\<close>
\<close>

function swap_loop ::
  "'a list \<Rightarrow> 'a list \<Rightarrow> nat \<Rightarrow> nat \<Rightarrow> ('a list \<times> 'a list) result" where
  "swap_loop xs ys i lst =
     (if i \<noteq> lst
      then (if i < length xs \<and> i < length ys
            then swap_loop (xs[i := ys ! i]) (ys[i := xs ! i]) (i + 1) lst
            else Inl Undefined_Behaviour)
      else Inr (xs, ys))"
  by pat_completeness auto
termination
  by (relation "measure (\<lambda>(xs, ys, i, lst). max lst (length xs) - i)") auto

declare swap_loop.simps [simp del]

text \<open>
  \<^verbatim>\<open>a.swap(b)\<close> for two distinct objects \<open>this\<close> and \<open>other\<close>; the result is the pair of
  their new states. \<^verbatim>\<open>std::swap\<close> on a pair of slots exchanges their values, \<^verbatim>\<open>std::max\<close>
  is \<open>max\<close>, and the last statement \<^verbatim>\<open>swap(size_, other.size_)\<close> exchanges the counters.
\<close>

definition swap ::
  "'a static_vector \<Rightarrow> 'a static_vector \<Rightarrow> ('a static_vector \<times> 'a static_vector) result" where
  "swap this other =
     (let s = max (size_sv this) (size_sv other)
      in and_then (swap_loop (data_m this) (data_m other) (begin_sv this) (begin_sv this + s))
           (\<lambda>(d1, d2). Inr (this\<lparr>data_m := d1, size_m := size_m other\<rparr>,
                            other\<lparr>data_m := d2, size_m := size_m this\<rparr>)))"

subsection \<open>Comparison\<close>

text \<open>
  \<^verbatim>\<open>std::equal(first1, last1, first2, last2)\<close> of \<^verbatim>\<open><algorithm>\<close> on random-access
  iterators: \<^verbatim>\<open>false\<close> when the two distances differ, otherwise
  \<^verbatim>\<open>for (; first1 != last1; ++first1, ++first2) if (!(*first1 == *first2)) return false;
  return true;\<close>
\<close>

function equal_loop ::
  "('a \<Rightarrow> 'a \<Rightarrow> bool) \<Rightarrow> 'a list \<Rightarrow> nat \<Rightarrow> nat \<Rightarrow> 'a list \<Rightarrow> nat \<Rightarrow> bool result" where
  "equal_loop eq xs first1 last1 ys first2 =
     (if first1 \<noteq> last1
      then (if first1 < length xs \<and> first2 < length ys
            then (if eq (xs ! first1) (ys ! first2)
                  then equal_loop eq xs (first1 + 1) last1 ys (first2 + 1)
                  else Inr False)
            else Inl Undefined_Behaviour)
      else Inr True)"
  by pat_completeness auto
termination
  by (relation
      "measure (\<lambda>(eq, xs, first1, last1, ys, first2). max last1 (length xs) - first1)") auto

declare equal_loop.simps [simp del]

definition std_equal ::
  "('a \<Rightarrow> 'a \<Rightarrow> bool) \<Rightarrow> 'a list \<Rightarrow> nat \<Rightarrow> nat \<Rightarrow> 'a list \<Rightarrow> nat \<Rightarrow> nat \<Rightarrow> bool result" where
  "std_equal eq xs first1 last1 ys first2 last2 =
     (if last1 - first1 \<noteq> last2 - first2 then Inr False
      else equal_loop eq xs first1 last1 ys first2)"

text \<open>
  \<^verbatim>\<open>operator==\<close> and \<^verbatim>\<open>operator!=\<close> of the class, for the element comparison \<open>eq\<close>.
\<close>

definition operator_eq ::
  "('a \<Rightarrow> 'a \<Rightarrow> bool) \<Rightarrow> 'a static_vector \<Rightarrow> 'a static_vector \<Rightarrow> bool result" where
  "operator_eq eq a b =
     std_equal eq (data_m a) (begin_sv a) (end_sv a) (data_m b) (begin_sv b) (end_sv b)"

definition operator_neq ::
  "('a \<Rightarrow> 'a \<Rightarrow> bool) \<Rightarrow> 'a static_vector \<Rightarrow> 'a static_vector \<Rightarrow> bool result" where
  "operator_neq eq a b = and_then (operator_eq eq a b) (\<lambda>r. Inr (\<not> r))"

text \<open>
  An element type whose \<^verbatim>\<open>operator==\<close> is not value equality: the C++ type \<^verbatim>\<open>double\<close>, as
  far as comparison sees it. A value is a NaN or a number (the integral ones are enough
  here); \<^verbatim>\<open>==\<close> on two numbers compares them, and is false as soon as one side is a NaN,
  also for a NaN and itself.
\<close>

datatype double = NaN | Num int

fun double_eq :: "double \<Rightarrow> double \<Rightarrow> bool" where
  "double_eq (Num x) (Num y) = (x = y)"
| "double_eq _ _ = False"

section \<open>Reachable states\<close>

text \<open>
  The objects a program can hold: those a constructor returns when its precondition
  (\<open>s \<le> N\<close>, at most \<open>N\<close> items) holds, and those that \<^verbatim>\<open>fill\<close>, \<^verbatim>\<open>swap\<close> or a write
  through \<^verbatim>\<open>operator[]\<close> return from such objects.
\<close>

inductive reachable :: "nat \<Rightarrow> 'a static_vector \<Rightarrow> bool" for N :: nat where
  default_constructed:
    "length raw = N \<Longrightarrow> reachable N (static_vector_default raw)"
| sized:
    "length raw = N \<Longrightarrow> s \<le> N \<Longrightarrow> static_vector_sized NDEBUG N raw s = Inr this \<Longrightarrow>
     reachable N this"
| sized_with_value:
    "length raw = N \<Longrightarrow> s \<le> N \<Longrightarrow> static_vector_value NDEBUG N raw s v = Inr this \<Longrightarrow>
     reachable N this"
| from_list:
    "length raw = N \<Longrightarrow> length il \<le> N \<Longrightarrow> static_vector_list NDEBUG N raw il = Inr this \<Longrightarrow>
     reachable N this"
| after_fill:
    "reachable N this \<Longrightarrow> fill this v = Inr this' \<Longrightarrow> reachable N this'"
| after_swap_this:
    "reachable N this \<Longrightarrow> reachable N other \<Longrightarrow> swap this other = Inr (this', other') \<Longrightarrow>
     reachable N this'"
| after_swap_other:
    "reachable N this \<Longrightarrow> reachable N other \<Longrightarrow> swap this other = Inr (this', other') \<Longrightarrow>
     reachable N other'"
| after_write:
    "reachable N this \<Longrightarrow> subscript_assign this pos v = Inr this' \<Longrightarrow> reachable N this'"

section \<open>Properties of the loops\<close>

lemma and_then_Inr [simp]: "and_then (Inr x) f = f x"
  by (simp add: and_then_def)

lemma and_then_Inl [simp]: "and_then (Inl e) f = Inl e"
  by (simp add: and_then_def)

lemma std_fill_result:
  "first \<le> lst \<Longrightarrow> lst \<le> length xs \<Longrightarrow>
   \<exists>ys. std_fill xs first lst v = Inr ys \<and> length ys = length xs \<and>
        (\<forall>i<length xs. ys ! i = (if first \<le> i \<and> i < lst then v else xs ! i))"
proof (induction xs first lst v rule: std_fill.induct)
  case (1 xs first lst v)
  show ?case
  proof (cases "first = lst")
    case True
    then show ?thesis by (subst std_fill.simps) auto
  next
    case False
    with "1.prems" have lt: "first < lst" "first < length xs" by simp_all
    from "1.IH" [OF False lt(2)] lt "1.prems"
    obtain ys where ys: "std_fill (xs[first := v]) (first + 1) lst v = Inr ys"
      "length ys = length xs"
      "\<forall>i<length xs. ys ! i = (if first + 1 \<le> i \<and> i < lst then v else xs[first := v] ! i)"
      by auto
    have "\<forall>i<length xs. ys ! i = (if first \<le> i \<and> i < lst then v else xs ! i)"
      using ys(3) lt by (auto simp: nth_list_update)
    moreover have "std_fill xs first lst v = Inr ys"
      using ys(1) False lt(2) by (subst std_fill.simps) auto
    ultimately show ?thesis using ys(2) by blast
  qed
qed

lemma swap_loop_result:
  "i \<le> lst \<Longrightarrow> lst \<le> length xs \<Longrightarrow> lst \<le> length ys \<Longrightarrow>
   \<exists>xs' ys'. swap_loop xs ys i lst = Inr (xs', ys') \<and>
        length xs' = length xs \<and> length ys' = length ys \<and>
        (\<forall>k<length xs. xs' ! k = (if i \<le> k \<and> k < lst then ys ! k else xs ! k)) \<and>
        (\<forall>k<length ys. ys' ! k = (if i \<le> k \<and> k < lst then xs ! k else ys ! k))"
proof (induction xs ys i lst rule: swap_loop.induct)
  case (1 xs ys i lst)
  show ?case
  proof (cases "i = lst")
    case True
    then show ?thesis by (subst swap_loop.simps) auto
  next
    case False
    with "1.prems" have lt: "i < lst" "i < length xs" "i < length ys" by simp_all
    have b: "i < length xs \<and> i < length ys" using lt by simp
    from "1.IH" [OF False b] lt "1.prems"
    obtain xs' ys' where r:
      "swap_loop (xs[i := ys ! i]) (ys[i := xs ! i]) (i + 1) lst = Inr (xs', ys')"
      "length xs' = length xs" "length ys' = length ys"
      "\<forall>k<length xs. xs' ! k = (if i + 1 \<le> k \<and> k < lst then ys[i := xs ! i] ! k else xs[i := ys ! i] ! k)"
      "\<forall>k<length ys. ys' ! k = (if i + 1 \<le> k \<and> k < lst then xs[i := ys ! i] ! k else ys[i := xs ! i] ! k)"
      by auto
    have x: "\<forall>k<length xs. xs' ! k = (if i \<le> k \<and> k < lst then ys ! k else xs ! k)"
      using r(4) lt by (auto simp: nth_list_update)
    have y: "\<forall>k<length ys. ys' ! k = (if i \<le> k \<and> k < lst then xs ! k else ys ! k)"
      using r(5) lt by (auto simp: nth_list_update)
    have "swap_loop xs ys i lst = Inr (xs', ys')"
      using r(1) False b by (subst swap_loop.simps) simp
    with x y r(2,3) show ?thesis by blast
  qed
qed

lemma swap_loop_closed:
  assumes "s \<le> length xs" "s \<le> length ys"
  shows "swap_loop xs ys 0 s = Inr (take s ys @ drop s xs, take s xs @ drop s ys)"
proof -
  from swap_loop_result [of 0 s xs ys] assms
  obtain xs' ys' where r: "swap_loop xs ys 0 s = Inr (xs', ys')"
      "length xs' = length xs" "length ys' = length ys"
      "\<forall>k<length xs. xs' ! k = (if k < s then ys ! k else xs ! k)"
      "\<forall>k<length ys. ys' ! k = (if k < s then xs ! k else ys ! k)"
    by auto
  have "xs' = take s ys @ drop s xs"
    using r(2,4) assms by (intro nth_equalityI) (auto simp: nth_append)
  moreover have "ys' = take s xs @ drop s ys"
    using r(3,5) assms by (intro nth_equalityI) (auto simp: nth_append)
  ultimately show ?thesis using r(1) by simp
qed

lemma equal_loop_result:
  "i \<le> n \<Longrightarrow> n \<le> length xs \<Longrightarrow> n \<le> length ys \<Longrightarrow>
   equal_loop eq xs i n ys i = Inr (\<forall>k. i \<le> k \<and> k < n \<longrightarrow> eq (xs ! k) (ys ! k))"
proof (induction "n - i" arbitrary: i)
  case 0
  then show ?case by (subst equal_loop.simps) auto
next
  case (Suc d)
  then have lt: "i < n" "i < length xs" "i < length ys" by simp_all
  have IH: "equal_loop eq xs (i + 1) n ys (i + 1) =
      Inr (\<forall>k. i + 1 \<le> k \<and> k < n \<longrightarrow> eq (xs ! k) (ys ! k))"
    using Suc.hyps(1) [of "i + 1"] Suc.hyps(2) Suc.prems by simp
  show ?case
  proof (cases "eq (xs ! i) (ys ! i)")
    case True
    have "(\<forall>k. i + 1 \<le> k \<and> k < n \<longrightarrow> eq (xs ! k) (ys ! k)) =
          (\<forall>k. i \<le> k \<and> k < n \<longrightarrow> eq (xs ! k) (ys ! k))"
      using True by (metis Suc_eq_plus1 Suc_leI le_neq_implies_less Suc_leD)
    then show ?thesis using True lt IH by (subst equal_loop.simps) simp
  next
    case False
    then have "\<not> (\<forall>k. i \<le> k \<and> k < n \<longrightarrow> eq (xs ! k) (ys ! k))" using lt by auto
    then show ?thesis using False lt by (subst equal_loop.simps) simp
  qed
qed

lemma double_eq_sym: "double_eq x y = double_eq y x"
  by (cases x; cases y) auto

section \<open>Results of the operations\<close>

lemma swap_result:
  assumes "invariant N a" "invariant N b"
  shows "swap a b =
     Inr (a\<lparr>data_m := take (max (size_m a) (size_m b)) (data_m b) @
                        drop (max (size_m a) (size_m b)) (data_m a),
             size_m := size_m b\<rparr>,
          b\<lparr>data_m := take (max (size_m a) (size_m b)) (data_m a) @
                        drop (max (size_m a) (size_m b)) (data_m b),
             size_m := size_m a\<rparr>)"
proof -
  let ?s = "max (size_m a) (size_m b)"
  have "?s \<le> length (data_m a)" "?s \<le> length (data_m b)"
    using assms by (simp_all add: invariant_def has_capacity_def)
  then show ?thesis
    by (simp add: swap_def size_sv_def begin_sv_def swap_loop_closed)
qed

lemma swap_invariant:
  assumes "invariant N a" "invariant N b" "swap a b = Inr (a', b')"
  shows "invariant N a'" "invariant N b'"
  using assms swap_result [OF assms(1,2)]
  by (auto simp: invariant_def has_capacity_def)

lemma operator_eq_result:
  assumes "invariant N a" "invariant N b"
  shows "operator_eq eq a b =
     Inr (size_m a = size_m b \<and> (\<forall>i<size_m a. eq (data_m a ! i) (data_m b ! i)))"
proof (cases "size_m a = size_m b")
  case True
  have "size_m a \<le> length (data_m a)" "size_m a \<le> length (data_m b)"
    using assms True by (simp_all add: invariant_def has_capacity_def)
  then have "equal_loop eq (data_m a) 0 (size_m a) (data_m b) 0 =
     Inr (\<forall>k. 0 \<le> k \<and> k < size_m a \<longrightarrow> eq (data_m a ! k) (data_m b ! k))"
    by (intro equal_loop_result) simp_all
  then show ?thesis
    using True by (simp add: operator_eq_def std_equal_def begin_sv_def end_sv_def)
next
  case False
  then show ?thesis
    by (simp add: operator_eq_def std_equal_def begin_sv_def end_sv_def)
qed

lemma fill_result:
  assumes "invariant N a"
  shows "\<exists>d. fill a v = Inr (a\<lparr>data_m := d\<rparr>) \<and> length d = N \<and>
           (\<forall>i<N. d ! i = (if i < size_m a then v else data_m a ! i))"
proof -
  have len: "length (data_m a) = N" "size_m a \<le> N"
    using assms by (simp_all add: invariant_def has_capacity_def)
  from std_fill_result [of 0 "size_m a" "data_m a" v] len
  obtain ys where "std_fill (data_m a) 0 (size_m a) v = Inr ys" "length ys = N"
    "\<forall>i<N. ys ! i = (if i < size_m a then v else data_m a ! i)"
    by auto
  then show ?thesis
    by (intro exI [of _ ys]) (simp add: fill_def begin_sv_def end_sv_def)
qed

lemma std_copy_result:
  "d + length il \<le> length dst \<Longrightarrow>
   \<exists>ys. std_copy il dst d = Inr ys \<and> length ys = length dst \<and>
        (\<forall>i<length dst. ys ! i = (if d \<le> i \<and> i < d + length il then il ! (i - d) else dst ! i))"
proof (induction il arbitrary: dst d)
  case Nil
  then show ?case by auto
next
  case (Cons x xs)
  then have lt: "d < length dst" by simp
  from Cons.IH [of "d + 1" "dst[d := x]"] Cons.prems
  obtain ys where ys: "std_copy xs (dst[d := x]) (d + 1) = Inr ys" "length ys = length dst"
    "\<forall>i<length dst. ys ! i =
        (if d + 1 \<le> i \<and> i < d + 1 + length xs then xs ! (i - (d + 1)) else dst[d := x] ! i)"
    by auto
  have "\<forall>i<length dst. ys ! i =
        (if d \<le> i \<and> i < d + length (x # xs) then (x # xs) ! (i - d) else dst ! i)"
    using ys(3) lt by (auto simp: nth_list_update nth_Cons')
  then show ?case using ys(1,2) lt by simp
qed

lemma static_vector_list_result:
  assumes "length raw = N" and "length il \<le> N"
  shows "\<exists>this. static_vector_list NDEBUG N raw il = Inr this \<and> invariant N this \<and>
           size_sv this = length il \<and> (\<forall>i<length il. subscript this i = Inr (il ! i))"
proof -
  from std_copy_result [of 0 il raw] assms
  obtain ys where ys: "std_copy il raw 0 = Inr ys" "length ys = N"
    "\<forall>i<N. ys ! i = (if i < length il then il ! i else raw ! i)"
    by auto
  then show ?thesis
    using assms
    by (simp add: static_vector_list_def static_vector_sized_def assert_def size_sv_def
        subscript_def array_read_def invariant_def has_capacity_def)
qed

lemma fill_invariant:
  assumes "invariant N a" "fill a v = Inr a'"
  shows "invariant N a'"
  using assms fill_result [OF assms(1), of v]
  by (auto simp: invariant_def has_capacity_def)

lemma sized_invariant:
  assumes "length raw = N" "s \<le> N" "static_vector_sized NDEBUG N raw s = Inr this"
  shows "invariant N this"
  using assms
  by (auto simp: static_vector_sized_def assert_def invariant_def has_capacity_def)

lemma subscript_assign_invariant:
  assumes "invariant N a" "subscript_assign a pos v = Inr a'"
  shows "invariant N a'"
  using assms
  by (auto simp: subscript_assign_def array_write_def invariant_def has_capacity_def
      split: if_splits)

lemma list_invariant:
  assumes "length raw = N" "length il \<le> N" "static_vector_list NDEBUG N raw il = Inr this"
  shows "invariant N this"
  using assms static_vector_list_result [OF assms(1,2), of NDEBUG] by auto

lemma value_invariant:
  assumes "length raw = N" "s \<le> N" "static_vector_value NDEBUG N raw s v = Inr this"
  shows "invariant N this"
proof -
  have sz: "static_vector_sized NDEBUG N raw s = Inr \<lparr>size_m = s, data_m = raw\<rparr>"
    using assms(2) by (simp add: static_vector_sized_def assert_def)
  have inv: "invariant N \<lparr>size_m = s, data_m = raw\<rparr>"
    using assms(1,2) by (simp add: invariant_def has_capacity_def)
  have "fill \<lparr>size_m = s, data_m = raw\<rparr> v = Inr this"
    using assms(3) by (simp add: static_vector_value_def sz)
  then show ?thesis by (rule fill_invariant [OF inv])
qed

lemma reachable_invariant: "reachable N a \<Longrightarrow> invariant N a"
proof (induction rule: reachable.induct)
  case (default_constructed raw)
  then show ?case
    by (simp add: static_vector_default_def invariant_def has_capacity_def)
next
  case (sized raw s NDEBUG a)
  from sized.hyps show ?case by (rule sized_invariant)
next
  case (sized_with_value raw s NDEBUG v a)
  from sized_with_value.hyps show ?case by (rule value_invariant)
next
  case (from_list raw il NDEBUG a)
  from from_list.hyps show ?case by (rule list_invariant)
next
  case (after_fill a v a')
  from after_fill.IH after_fill.hyps(2) show ?case by (rule fill_invariant)
next
  case (after_swap_this a b a' b')
  from after_swap_this.IH after_swap_this.hyps(3) show ?case by (rule swap_invariant(1))
next
  case (after_swap_other a b a' b')
  from after_swap_other.IH after_swap_other.hyps(3) show ?case by (rule swap_invariant(2))
next
  case (after_write a pos v a')
  from after_write.IH after_write.hyps(2) show ?case by (rule subscript_assign_invariant)
qed

lemma at_result:
  "at this pos =
     (if size_sv this \<le> pos then Inl (Terminate (out_of_range ''pos is out of range''))
      else subscript this pos)"
  by (simp add: at_def at_body_def noexcept_def BOOST_THROW_EXCEPTION_def subscript_def
      array_read_def)

section \<open>The claims\<close>

text \<open>
  The theorems below speak about objects that satisfy \<open>invariant N\<close>: an array of \<open>N\<close>
  slots and a counter not above \<open>N\<close>. These are the objects the constructors produce
  when their precondition holds (\<open>reachable_invariant\<close>); an object built with a size
  above \<open>N\<close> is a contract violation of the caller, after which the loops of the class
  leave the array.
\<close>

subsection \<open>\<^verbatim>\<open>swap\<close>\<close>

text \<open>
  \<^bold>\<open>C1\<close> (swap content exchange). For two objects \<open>a\<close> and \<open>b\<close> of the same instantiation,
  \<^verbatim>\<open>a.swap(b)\<close> returns, and afterwards \<^verbatim>\<open>a[i]\<close> for every \<open>i\<close> below the new size of \<open>a\<close> is
  the value \<open>b\<close> held at \<open>i\<close> before the call, and symmetrically for \<open>b\<close>. The call
  exchanges the slots of the union range \<open>[0, max (size a) (size b))\<close>, leaves the slots
  beyond it alone, and exchanges the two size fields.
\<close>

theorem swap_content_exchange:
  assumes "invariant N a" and "invariant N b"
  shows "\<exists>a' b'. swap a b = Inr (a', b') \<and>
           (\<forall>i<size_sv a'. subscript a' i = subscript b i \<and> subscript b i = Inr (data_m b ! i)) \<and>
           (\<forall>i<size_sv b'. subscript b' i = subscript a i \<and> subscript a i = Inr (data_m a ! i)) \<and>
           data_m a' = take (max (size_sv a) (size_sv b)) (data_m b) @
                       drop (max (size_sv a) (size_sv b)) (data_m a) \<and>
           data_m b' = take (max (size_sv a) (size_sv b)) (data_m a) @
                       drop (max (size_sv a) (size_sv b)) (data_m b) \<and>
           size_m a' = size_m b \<and> size_m b' = size_m a"
proof -
  have len: "length (data_m a) = N" "length (data_m b) = N" "size_m a \<le> N" "size_m b \<le> N"
    using assms by (simp_all add: invariant_def has_capacity_def)
  show ?thesis
    unfolding swap_result [OF assms]
    using len by (auto simp: size_sv_def subscript_def array_read_def nth_append)
qed

theorem swap_content_exchange_witness:
  "invariant 4 \<lparr>size_m = 3, data_m = [1, 2, 3, 0 :: int]\<rparr> \<and>
   invariant 4 \<lparr>size_m = 2, data_m = [5, 6, 7, 8 :: int]\<rparr> \<and>
   (\<exists>a' b'. swap \<lparr>size_m = 3, data_m = [1, 2, 3, 0 :: int]\<rparr>
                 \<lparr>size_m = 2, data_m = [5, 6, 7, 8]\<rparr> = Inr (a', b') \<and>
      size_sv a' = 2 \<and> subscript a' 0 = Inr 5 \<and> subscript a' 1 = Inr 6 \<and>
      size_sv b' = 3 \<and> subscript b' 0 = Inr 1 \<and> subscript b' 1 = Inr 2 \<and>
      subscript b' 2 = Inr 3 \<and>
      data_m a' = [5, 6, 7, 0] \<and> data_m b' = [1, 2, 3, 8])"
  using swap_content_exchange [of 4 "\<lparr>size_m = 3, data_m = [1, 2, 3, 0 :: int]\<rparr>"
      "\<lparr>size_m = 2, data_m = [5, 6, 7, 8]\<rparr>"]
  by (auto simp: invariant_def has_capacity_def size_sv_def)

text \<open>
  \<^bold>\<open>C2\<close> (swap size exchange). After \<^verbatim>\<open>a.swap(b)\<close>, \<^verbatim>\<open>a.size()\<close> is the size \<open>b\<close> had before
  the call and \<^verbatim>\<open>b.size()\<close> is the size \<open>a\<close> had.
\<close>

theorem swap_size_exchange:
  assumes "invariant N a" and "invariant N b"
  shows "\<exists>a' b'. swap a b = Inr (a', b') \<and> size_sv a' = size_sv b \<and> size_sv b' = size_sv a"
  unfolding swap_result [OF assms] by (simp add: size_sv_def)

theorem swap_size_exchange_witness:
  "invariant 4 \<lparr>size_m = 3, data_m = [1, 2, 3, 0 :: int]\<rparr> \<and>
   invariant 4 \<lparr>size_m = 2, data_m = [5, 6, 7, 8 :: int]\<rparr> \<and>
   (\<exists>a' b'. swap \<lparr>size_m = 3, data_m = [1, 2, 3, 0 :: int]\<rparr>
                 \<lparr>size_m = 2, data_m = [5, 6, 7, 8]\<rparr> = Inr (a', b') \<and>
      size_sv a' = 2 \<and> size_sv b' = 3)"
  using swap_size_exchange [of 4 "\<lparr>size_m = 3, data_m = [1, 2, 3, 0 :: int]\<rparr>"
      "\<lparr>size_m = 2, data_m = [5, 6, 7, 8]\<rparr>"]
  by (auto simp: invariant_def has_capacity_def size_sv_def)

text \<open>
  \<^bold>\<open>C9\<close> (swap is an involution). \<^verbatim>\<open>a.swap(b)\<close> followed by \<^verbatim>\<open>a.swap(b)\<close> again returns
  both objects to their original states: both size fields and the whole array of each,
  so in particular every slot of \<open>[0, max (size a) (size b))\<close>.
\<close>

theorem swap_involution:
  assumes "invariant N a" and "invariant N b"
  shows "\<exists>a' b'. swap a b = Inr (a', b') \<and> swap a' b' = Inr (a, b)"
proof -
  obtain a' b' where s: "swap a b = Inr (a', b')"
    using swap_result [OF assms] by simp
  have inv: "invariant N a'" "invariant N b'"
    using swap_invariant [OF assms s] by simp_all
  have len: "length (data_m a) = N" "length (data_m b) = N" "size_m a \<le> N" "size_m b \<le> N"
    using assms by (simp_all add: invariant_def has_capacity_def)
  have a': "a' = a\<lparr>data_m := take (max (size_m a) (size_m b)) (data_m b) @
                        drop (max (size_m a) (size_m b)) (data_m a), size_m := size_m b\<rparr>"
   and b': "b' = b\<lparr>data_m := take (max (size_m a) (size_m b)) (data_m a) @
                        drop (max (size_m a) (size_m b)) (data_m b), size_m := size_m a\<rparr>"
    using s swap_result [OF assms] by simp_all
  have "swap a' b' = Inr (a, b)"
    unfolding swap_result [OF inv] using len
    by (simp add: a' b' max.commute)
  with s show ?thesis by blast
qed

theorem swap_involution_witness:
  "invariant 4 \<lparr>size_m = 3, data_m = [1, 2, 3, 0 :: int]\<rparr> \<and>
   invariant 4 \<lparr>size_m = 2, data_m = [5, 6, 7, 8 :: int]\<rparr> \<and>
   (\<exists>a' b'. swap \<lparr>size_m = 3, data_m = [1, 2, 3, 0 :: int]\<rparr>
                 \<lparr>size_m = 2, data_m = [5, 6, 7, 8]\<rparr> = Inr (a', b') \<and>
      swap a' b' = Inr (\<lparr>size_m = 3, data_m = [1, 2, 3, 0]\<rparr>,
                        \<lparr>size_m = 2, data_m = [5, 6, 7, 8]\<rparr>))"
  using swap_involution [of 4 "\<lparr>size_m = 3, data_m = [1, 2, 3, 0 :: int]\<rparr>"
      "\<lparr>size_m = 2, data_m = [5, 6, 7, 8]\<rparr>"]
  by (simp add: invariant_def has_capacity_def)

subsection \<open>Checked access\<close>

text \<open>
  \<^bold>\<open>C3\<close> (checked-access safety). The claim asks that \<^verbatim>\<open>at(pos)\<close> with \<^verbatim>\<open>pos >= size()\<close>
  fail with an error the caller can catch. Both overloads of \<^verbatim>\<open>at\<close> are declared
  \<^verbatim>\<open>noexcept\<close>, so the \<^verbatim>\<open>std::out_of_range\<close> their body throws never reaches a caller: the
  program ends through \<^verbatim>\<open>std::terminate\<close>. The theorem evaluates the call \<^verbatim>\<open>at(3)\<close> on the
  vector \<^verbatim>\<open>{1, 2, 3}\<close> of capacity 4 (\<open>r\<close> is the content of the unused fourth slot).
  For positions below the size, \<open>at_result\<close> above shows that \<^verbatim>\<open>at\<close> agrees with
  \<^verbatim>\<open>operator[]\<close>.
\<close>

theorem at_out_of_range_terminates:
  "at \<lparr>size_m = 3, data_m = [1, 2, 3, r :: int]\<rparr> 3 =
     Inl (Terminate (out_of_range ''pos is out of range'')) \<and>
   at \<lparr>size_m = 3, data_m = [1, 2, 3, r :: int]\<rparr> 3 \<noteq>
     Inl (Throw (out_of_range ''pos is out of range''))"
  by (simp add: at_def at_body_def noexcept_def BOOST_THROW_EXCEPTION_def size_sv_def)

subsection \<open>Comparison\<close>

text \<open>
  \<^bold>\<open>C4\<close> (equality semantics). The claim makes \<^verbatim>\<open>a == a\<close> hold always. \<^verbatim>\<open>operator==\<close>
  compares the elements with \<^verbatim>\<open>T\<close>'s own \<^verbatim>\<open>operator==\<close>, so this fails where that is not
  reflexive: a \<^verbatim>\<open>static_vector<double, 4>\<close> of size 1 that holds a NaN is not equal to
  itself.
\<close>

theorem equality_not_reflexive_for_nan:
  "invariant 4 \<lparr>size_m = 1, data_m = [NaN, Num 0, Num 0, Num 0]\<rparr> \<and>
   operator_eq double_eq \<lparr>size_m = 1, data_m = [NaN, Num 0, Num 0, Num 0]\<rparr>
     \<lparr>size_m = 1, data_m = [NaN, Num 0, Num 0, Num 0]\<rparr> = Inr False \<and>
   operator_neq double_eq \<lparr>size_m = 1, data_m = [NaN, Num 0, Num 0, Num 0]\<rparr>
     \<lparr>size_m = 1, data_m = [NaN, Num 0, Num 0, Num 0]\<rparr> = Inr True"
  by (simp add: invariant_def has_capacity_def operator_neq_def operator_eq_def std_equal_def
      begin_sv_def end_sv_def equal_loop.simps)

text \<open>
  \<^bold>\<open>C4\<close>, as amended. For every element comparison \<open>eq\<close>: \<^verbatim>\<open>a == b\<close> holds iff the sizes
  are equal and \<open>eq\<close> holds of the two elements at every index below the size;
  \<^verbatim>\<open>a != b\<close> is its negation; \<^verbatim>\<open>a == a\<close> holds iff \<open>eq\<close> holds of every live element of
  \<open>a\<close> and itself, so always when \<open>eq\<close> is reflexive; and \<^verbatim>\<open>b == a\<close> gives what
  \<^verbatim>\<open>a == b\<close> gives when \<open>eq\<close> is symmetric.
\<close>

theorem equality_semantics:
  assumes "invariant N a" and "invariant N b"
  shows "operator_eq eq a b =
           Inr (size_sv a = size_sv b \<and> (\<forall>i<size_sv a. eq (data_m a ! i) (data_m b ! i))) \<and>
         operator_neq eq a b =
           Inr (\<not> (size_sv a = size_sv b \<and>
                   (\<forall>i<size_sv a. eq (data_m a ! i) (data_m b ! i)))) \<and>
         operator_eq eq a a = Inr (\<forall>i<size_sv a. eq (data_m a ! i) (data_m a ! i)) \<and>
         ((\<forall>x. eq x x) \<longrightarrow> operator_eq eq a a = Inr True) \<and>
         ((\<forall>x y. eq x y = eq y x) \<longrightarrow> operator_eq eq b a = operator_eq eq a b)"
proof -
  have e: "operator_eq eq a b =
           Inr (size_sv a = size_sv b \<and> (\<forall>i<size_sv a. eq (data_m a ! i) (data_m b ! i)))"
    by (simp add: operator_eq_result [OF assms] size_sv_def)
  then have n: "operator_neq eq a b =
           Inr (\<not> (size_sv a = size_sv b \<and>
                   (\<forall>i<size_sv a. eq (data_m a ! i) (data_m b ! i))))"
    by (simp add: operator_neq_def)
  have r: "operator_eq eq a a = Inr (\<forall>i<size_sv a. eq (data_m a ! i) (data_m a ! i))"
    by (simp add: operator_eq_result [OF assms(1) assms(1)] size_sv_def)
  then have r': "(\<forall>x. eq x x) \<longrightarrow> operator_eq eq a a = Inr True"
    by simp
  have s: "(\<forall>x y. eq x y = eq y x) \<longrightarrow> operator_eq eq b a = operator_eq eq a b"
  proof
    assume sym: "\<forall>x y. eq x y = eq y x"
    have "(size_m b = size_m a \<and> (\<forall>i<size_m b. eq (data_m b ! i) (data_m a ! i))) =
          (size_m a = size_m b \<and> (\<forall>i<size_m a. eq (data_m a ! i) (data_m b ! i)))"
      using sym by auto
    then show "operator_eq eq b a = operator_eq eq a b"
      unfolding operator_eq_result [OF assms] operator_eq_result [OF assms(2) assms(1)]
      by simp
  qed
  from e n r r' s show ?thesis by (intro conjI)
qed

theorem equality_semantics_witness:
  "invariant 4 \<lparr>size_m = 2, data_m = [Num 5, Num 6, NaN, NaN]\<rparr> \<and>
   invariant 4 \<lparr>size_m = 2, data_m = [Num 5, Num 9, NaN, Num 8]\<rparr> \<and>
   operator_eq double_eq \<lparr>size_m = 2, data_m = [Num 5, Num 6, NaN, NaN]\<rparr>
     \<lparr>size_m = 2, data_m = [Num 5, Num 9, NaN, Num 8]\<rparr> = Inr False \<and>
   operator_neq double_eq \<lparr>size_m = 2, data_m = [Num 5, Num 6, NaN, NaN]\<rparr>
     \<lparr>size_m = 2, data_m = [Num 5, Num 9, NaN, Num 8]\<rparr> = Inr True \<and>
   operator_eq double_eq \<lparr>size_m = 2, data_m = [Num 5, Num 6, NaN, NaN]\<rparr>
     \<lparr>size_m = 2, data_m = [Num 5, Num 6, NaN, NaN]\<rparr> = Inr True \<and>
   operator_eq double_eq \<lparr>size_m = 2, data_m = [Num 5, Num 9, NaN, Num 8]\<rparr>
     \<lparr>size_m = 2, data_m = [Num 5, Num 6, NaN, NaN]\<rparr> = Inr False"
  using equality_semantics [of 4 "\<lparr>size_m = 2, data_m = [Num 5, Num 6, NaN, NaN]\<rparr>"
      "\<lparr>size_m = 2, data_m = [Num 5, Num 9, NaN, Num 8]\<rparr>" double_eq]
  by (simp add: invariant_def has_capacity_def size_sv_def less_Suc_eq numeral_2_eq_2
      double_eq_sym)

text \<open>
  \<^bold>\<open>C10\<close> (equality ignores dead slots). If \<open>a\<close> and \<open>a'\<close> have the same size and the same
  elements below it, then \<^verbatim>\<open>a == b\<close> and \<^verbatim>\<open>a' == b\<close> return the same truth value for every
  \<open>b\<close> and every element comparison \<open>eq\<close>, whatever \<open>a\<close> and \<open>a'\<close> hold in the slots at
  and above the size.
\<close>

theorem equality_ignores_dead_slots:
  assumes "invariant N a" and "invariant N a'" and "invariant N b"
    and "size_sv a = size_sv a'"
    and "\<forall>i<size_sv a. subscript a i = subscript a' i"
  shows "\<exists>r. operator_eq eq a b = Inr r \<and> operator_eq eq a' b = Inr r"
proof -
  have "\<forall>i<size_m a. data_m a ! i = data_m a' ! i"
    using assms
    by (auto simp: size_sv_def subscript_def array_read_def invariant_def has_capacity_def)
  then show ?thesis
    unfolding operator_eq_result [OF assms(1,3)] operator_eq_result [OF assms(2,3)]
    using assms(4) by (auto simp: size_sv_def)
qed

theorem equality_ignores_dead_slots_witness:
  "invariant 4 \<lparr>size_m = 2, data_m = [5, 6, 7, 8 :: int]\<rparr> \<and>
   invariant 4 \<lparr>size_m = 2, data_m = [5, 6, 0, 1 :: int]\<rparr> \<and>
   invariant 4 \<lparr>size_m = 2, data_m = [5, 6, 3, 4 :: int]\<rparr> \<and>
   size_sv \<lparr>size_m = 2, data_m = [5, 6, 7, 8 :: int]\<rparr> =
     size_sv \<lparr>size_m = 2, data_m = [5, 6, 0, 1 :: int]\<rparr> \<and>
   subscript \<lparr>size_m = 2, data_m = [5, 6, 7, 8 :: int]\<rparr> 0 =
     subscript \<lparr>size_m = 2, data_m = [5, 6, 0, 1 :: int]\<rparr> 0 \<and>
   subscript \<lparr>size_m = 2, data_m = [5, 6, 7, 8 :: int]\<rparr> 1 =
     subscript \<lparr>size_m = 2, data_m = [5, 6, 0, 1 :: int]\<rparr> 1 \<and>
   subscript \<lparr>size_m = 2, data_m = [5, 6, 7, 8 :: int]\<rparr> 2 \<noteq>
     subscript \<lparr>size_m = 2, data_m = [5, 6, 0, 1 :: int]\<rparr> 2 \<and>
   (\<exists>r. operator_eq (=) \<lparr>size_m = 2, data_m = [5, 6, 7, 8 :: int]\<rparr>
           \<lparr>size_m = 2, data_m = [5, 6, 3, 4]\<rparr> = Inr r \<and>
        operator_eq (=) \<lparr>size_m = 2, data_m = [5, 6, 0, 1 :: int]\<rparr>
           \<lparr>size_m = 2, data_m = [5, 6, 3, 4]\<rparr> = Inr r)"
proof -
  have h: "\<forall>i<size_sv \<lparr>size_m = 2, data_m = [5, 6, 7, 8 :: int]\<rparr>.
      subscript \<lparr>size_m = 2, data_m = [5, 6, 7, 8 :: int]\<rparr> i =
      subscript \<lparr>size_m = 2, data_m = [5, 6, 0, 1 :: int]\<rparr> i"
    by (simp add: size_sv_def subscript_def array_read_def less_Suc_eq numeral_2_eq_2)
  show ?thesis
    using h equality_ignores_dead_slots [of 4 "\<lparr>size_m = 2, data_m = [5, 6, 7, 8 :: int]\<rparr>"
      "\<lparr>size_m = 2, data_m = [5, 6, 0, 1]\<rparr>" "\<lparr>size_m = 2, data_m = [5, 6, 3, 4]\<rparr>" "(=)"]
    by (simp add: invariant_def has_capacity_def size_sv_def subscript_def array_read_def)
qed

subsection \<open>Size and capacity\<close>

text \<open>
  \<^bold>\<open>C5\<close> (capacity invariant). After every valid construction (default, sized with
  \<open>s \<le> N\<close>, sized with a value and \<open>s \<le> N\<close>, from a list of at most \<open>N\<close> items) and after
  every later \<^verbatim>\<open>fill\<close>, \<^verbatim>\<open>swap\<close> or indexed write, \<^verbatim>\<open>size() <= max_size()\<close>, and
  \<^verbatim>\<open>max_size()\<close> is \<open>N\<close>. The states in question are those of \<open>reachable N\<close>.
\<close>

theorem capacity_invariant:
  assumes "reachable N this"
  shows "size_sv this \<le> max_size N this \<and> max_size N this = N"
  using reachable_invariant [OF assms]
  by (simp add: invariant_def size_sv_def max_size_def)

theorem capacity_invariant_witness:
  "reachable 4 \<lparr>size_m = 3, data_m = [9, 9, 9, 0 :: int]\<rparr> \<and>
   size_sv \<lparr>size_m = 3, data_m = [9, 9, 9, 0 :: int]\<rparr>
     \<le> max_size 4 \<lparr>size_m = 3, data_m = [9, 9, 9, 0 :: int]\<rparr> \<and>
   max_size 4 \<lparr>size_m = 3, data_m = [9, 9, 9, 0 :: int]\<rparr> = 4"
proof -
  have "static_vector_list False 4 [0, 0, 0, 0] [1, 2, 3 :: int] =
      Inr \<lparr>size_m = 3, data_m = [1, 2, 3, 0]\<rparr>"
    by (simp add: static_vector_list_def static_vector_sized_def assert_def)
  then have "reachable 4 \<lparr>size_m = 3, data_m = [1, 2, 3, 0 :: int]\<rparr>"
    by (intro reachable.from_list [of "[0, 0, 0, 0]" 4 "[1, 2, 3]" False]) simp_all
  moreover have "fill \<lparr>size_m = 3, data_m = [1, 2, 3, 0 :: int]\<rparr> 9 =
      Inr \<lparr>size_m = 3, data_m = [9, 9, 9, 0]\<rparr>"
    by (simp add: fill_def begin_sv_def end_sv_def std_fill.simps)
  ultimately have r: "reachable 4 \<lparr>size_m = 3, data_m = [9, 9, 9, 0 :: int]\<rparr>"
    by (rule reachable.after_fill)
  from r capacity_invariant [OF r] show ?thesis by simp
qed

subsection \<open>\<^verbatim>\<open>fill\<close>\<close>

text \<open>
  \<^bold>\<open>C6\<close> (fill correctness). \<^verbatim>\<open>fill(v)\<close> returns; afterwards every element at an index
  below \<^verbatim>\<open>size()\<close> is \<open>v\<close>, the size is what it was, and with size 0 the object is
  unchanged. The index order of the writes is the recursion of \<open>std_fill\<close>.
\<close>

theorem fill_correct:
  assumes "invariant N a"
  shows "\<exists>a'. fill a v = Inr a' \<and> size_sv a' = size_sv a \<and>
           (\<forall>i<size_sv a'. subscript a' i = Inr v) \<and>
           (size_sv a = 0 \<longrightarrow> a' = a)"
proof -
  have len: "length (data_m a) = N" "size_m a \<le> N"
    using assms by (simp_all add: invariant_def has_capacity_def)
  from fill_result [OF assms, of v]
  obtain d where d: "fill a v = Inr (a\<lparr>data_m := d\<rparr>)" "length d = N"
    "\<forall>i<N. d ! i = (if i < size_m a then v else data_m a ! i)"
    by blast
  have "size_m a = 0 \<Longrightarrow> d = data_m a"
    using d(2,3) len by (intro nth_equalityI) simp_all
  then show ?thesis
    using d len by (auto simp: size_sv_def subscript_def array_read_def)
qed

theorem fill_correct_witness:
  "invariant 4 \<lparr>size_m = 3, data_m = [1, 2, 3, 0 :: int]\<rparr> \<and>
   (\<exists>a'. fill \<lparr>size_m = 3, data_m = [1, 2, 3, 0 :: int]\<rparr> 9 = Inr a' \<and>
      size_sv a' = 3 \<and> subscript a' 0 = Inr 9 \<and> subscript a' 1 = Inr 9 \<and>
      subscript a' 2 = Inr 9)"
  using fill_correct [of 4 "\<lparr>size_m = 3, data_m = [1, 2, 3, 0 :: int]\<rparr>" 9]
  by (auto simp: invariant_def has_capacity_def size_sv_def)

subsection \<open>Construction from a list\<close>

text \<open>
  \<^bold>\<open>C7\<close> (construction from a list). Constructing from a list of \<open>k \<le> N\<close> elements
  returns an object with \<^verbatim>\<open>size() == k\<close> whose element at every index \<open>i < k\<close> is the
  \<open>i\<close>-th element of the list, in a build with or without \<^verbatim>\<open>NDEBUG\<close> and whatever the
  array held before.
\<close>

theorem construction_from_list:
  assumes "length raw = N" and "length il \<le> N"
  shows "\<exists>this. static_vector_list NDEBUG N raw il = Inr this \<and>
           size_sv this = length il \<and> (\<forall>i<length il. subscript this i = Inr (il ! i))"
  using static_vector_list_result [OF assms, of NDEBUG] by blast

theorem construction_from_list_witness:
  "length [0, 0, 0, 0 :: int] = 4 \<and> length [1, 2, 3 :: int] \<le> 4 \<and>
   (\<exists>this. static_vector_list False 4 [0, 0, 0, 0] [1, 2, 3 :: int] = Inr this \<and>
      size_sv this = 3 \<and> subscript this 0 = Inr 1 \<and> subscript this 1 = Inr 2 \<and>
      subscript this 2 = Inr 3)"
  using construction_from_list [of "[0, 0, 0, 0 :: int]" 4 "[1, 2, 3]" False]
  by auto

subsection \<open>The scenario\<close>

text \<open>
  \<^bold>\<open>C8\<close> (end-to-end scenario). Capacity 4; \<open>r0 \<dots> r3\<close>, \<open>q0 \<dots> q3\<close> and \<open>p2\<close>, \<open>p3\<close>
  are the indeterminate initial contents of the arrays; the elements are \<^verbatim>\<open>int\<close>, whose
  \<^verbatim>\<open>==\<close> is value equality. The vector built from \<^verbatim>\<open>{1, 2, 3}\<close>
  has size 3, front 1 and back 3; \<^verbatim>\<open>fill(9)\<close> makes it \<^verbatim>\<open>{9, 9, 9}\<close>; swapping it with the
  vector built from \<^verbatim>\<open>{5, 6}\<close> leaves the first equal to \<^verbatim>\<open>{5, 6}\<close> with size 2 and the
  second equal to \<^verbatim>\<open>{9, 9, 9}\<close> with size 3. The step \<^verbatim>\<open>at(3)\<close>, however, does not report an
  out-of-range error to its caller: the exception is thrown inside a \<^verbatim>\<open>noexcept\<close> function
  and the program ends through \<^verbatim>\<open>std::terminate\<close>.
\<close>

theorem scenario_capacity_4:
  "static_vector_list NDEBUG 4 [r0, r1, r2, r3] [1, 2, 3 :: int] =
     Inr \<lparr>size_m = 3, data_m = [1, 2, 3, r3]\<rparr> \<and>
   size_sv \<lparr>size_m = 3, data_m = [1, 2, 3, r3]\<rparr> = 3 \<and>
   front \<lparr>size_m = 3, data_m = [1, 2, 3, r3]\<rparr> = Inr 1 \<and>
   back_sv \<lparr>size_m = 3, data_m = [1, 2, 3, r3]\<rparr> = Inr 3 \<and>
   at \<lparr>size_m = 3, data_m = [1, 2, 3, r3]\<rparr> 3 =
     Inl (Terminate (out_of_range ''pos is out of range'')) \<and>
   fill \<lparr>size_m = 3, data_m = [1, 2, 3, r3]\<rparr> 9 =
     Inr \<lparr>size_m = 3, data_m = [9, 9, 9, r3]\<rparr> \<and>
   static_vector_list NDEBUG 4 [q0, q1, q2, q3] [5, 6] =
     Inr \<lparr>size_m = 2, data_m = [5, 6, q2, q3]\<rparr> \<and>
   swap \<lparr>size_m = 3, data_m = [9, 9, 9, r3]\<rparr> \<lparr>size_m = 2, data_m = [5, 6, q2, q3]\<rparr> =
     Inr (\<lparr>size_m = 2, data_m = [5, 6, q2, r3]\<rparr>, \<lparr>size_m = 3, data_m = [9, 9, 9, q3]\<rparr>) \<and>
   size_sv \<lparr>size_m = 2, data_m = [5, 6, q2, r3]\<rparr> = 2 \<and>
   operator_eq (=) \<lparr>size_m = 2, data_m = [5, 6, q2, r3]\<rparr>
     \<lparr>size_m = 2, data_m = [5, 6, p2, p3]\<rparr> = Inr True \<and>
   size_sv \<lparr>size_m = 3, data_m = [9, 9, 9, q3]\<rparr> = 3 \<and>
   operator_eq (=) \<lparr>size_m = 3, data_m = [9, 9, 9, q3]\<rparr>
     \<lparr>size_m = 3, data_m = [9, 9, 9, p3]\<rparr> = Inr True"
proof -
  have c1: "static_vector_list NDEBUG 4 [r0, r1, r2, r3] [1, 2, 3 :: int] =
     Inr \<lparr>size_m = 3, data_m = [1, 2, 3, r3]\<rparr>"
    by (simp add: static_vector_list_def static_vector_sized_def assert_def)
  have c2: "static_vector_list NDEBUG 4 [q0, q1, q2, q3] [5, 6 :: int] =
     Inr \<lparr>size_m = 2, data_m = [5, 6, q2, q3]\<rparr>"
    by (simp add: static_vector_list_def static_vector_sized_def assert_def)
  have o: "size_sv \<lparr>size_m = 3, data_m = [1, 2, 3, r3]\<rparr> = 3"
    "front \<lparr>size_m = 3, data_m = [1, 2, 3, r3]\<rparr> = Inr 1"
    "back_sv \<lparr>size_m = 3, data_m = [1, 2, 3, r3]\<rparr> = Inr 3"
    "size_sv \<lparr>size_m = 2, data_m = [5, 6, q2, r3]\<rparr> = 2"
    "size_sv \<lparr>size_m = 3, data_m = [9, 9, 9, q3]\<rparr> = 3"
    by (simp_all add: size_sv_def front_def back_sv_def array_read_def)
  have a: "at \<lparr>size_m = 3, data_m = [1, 2, 3, r3]\<rparr> 3 =
     Inl (Terminate (out_of_range ''pos is out of range''))"
    by (simp add: at_result size_sv_def)
  have f: "fill \<lparr>size_m = 3, data_m = [1, 2, 3, r3]\<rparr> 9 =
     Inr \<lparr>size_m = 3, data_m = [9, 9, 9, r3]\<rparr>"
    by (simp add: fill_def begin_sv_def end_sv_def std_fill.simps)
  have s: "swap \<lparr>size_m = 3, data_m = [9, 9, 9, r3]\<rparr> \<lparr>size_m = 2, data_m = [5, 6, q2, q3]\<rparr> =
     Inr (\<lparr>size_m = 2, data_m = [5, 6, q2, r3]\<rparr>, \<lparr>size_m = 3, data_m = [9, 9, 9, q3]\<rparr>)"
    by (simp add: swap_def begin_sv_def size_sv_def swap_loop.simps)
  have e1: "operator_eq (=) \<lparr>size_m = 2, data_m = [5, 6, q2, r3]\<rparr>
     \<lparr>size_m = 2, data_m = [5, 6, p2, p3]\<rparr> = Inr True"
    by (simp add: operator_eq_def std_equal_def begin_sv_def end_sv_def equal_loop.simps)
  have e2: "operator_eq (=) \<lparr>size_m = 3, data_m = [9, 9, 9, q3]\<rparr>
     \<lparr>size_m = 3, data_m = [9, 9, 9, p3]\<rparr> = Inr True"
    by (simp add: operator_eq_def std_equal_def begin_sv_def end_sv_def equal_loop.simps)
  from c1 c2 o a f s e1 e2 show ?thesis by (intro conjI)
qed

end
